theory Spec2Isabelle
  imports Complex_Main "HOL-Library.Char_ord" "HOL-Library.List_Lexorder"
begin

section \<open>Data model\<close>

text \<open>
  The backend's \<^verbatim>\<open>RatingResult\<close> struct. Go's \<^verbatim>\<open>float64\<close> times are modelled as
  real numbers (rounding is not modelled); Go strings are byte strings.
\<close>

record RatingResult =
  Start :: real
  End :: real
  Rating :: string
  Notes :: string

section \<open>Rating scale\<close>

text \<open>\<^verbatim>\<open>getRatingValue\<close>: the \<^verbatim>\<open>switch\<close> on the label, with its \<^verbatim>\<open>default\<close> branch.\<close>

definition getRatingValue :: "string \<Rightarrow> int" where
  "getRatingValue rating =
     (if rating = ''6+'' then 6
      else if rating = ''12+'' then 12
      else if rating = ''16+'' then 16
      else if rating = ''18+'' then 18
      else 0)"

section \<open>String helpers of the Go standard library\<close>

text \<open>
  \<^verbatim>\<open>strings.Split(s, ",")\<close> with a one-byte separator: the fields between the separators,
  always at least one (the only field of the empty string is empty).
\<close>

fun Split :: "string \<Rightarrow> char \<Rightarrow> string list" where
  "Split [] sep = [[]]"
| "Split (c # cs) sep =
     (if c = sep then [] # Split cs sep
      else (case Split cs sep of
              [] \<Rightarrow> [[c]]
            | w # ws \<Rightarrow> (c # w) # ws))"

text \<open>
  \<^verbatim>\<open>strings.ToLower\<close> and \<^verbatim>\<open>strings.TrimSpace\<close> on ASCII: the letters A to Z are
  mapped to a to z, and the six ASCII white-space bytes are stripped from both ends.
  Bytes outside ASCII are left as they are (Go also folds and trims Unicode code points).
\<close>

definition ToLowerByte :: "char \<Rightarrow> char" where
  "ToLowerByte c =
     (case map_of (zip ''ABCDEFGHIJKLMNOPQRSTUVWXYZ'' ''abcdefghijklmnopqrstuvwxyz'') c of
        None \<Rightarrow> c
      | Some l \<Rightarrow> l)"

definition ToLower :: "string \<Rightarrow> string" where
  "ToLower s = map ToLowerByte s"

definition isSpace :: "char \<Rightarrow> bool" where
  "isSpace c = (c \<in> set [CHR '' '', CHR 0x09, CHR 0x0A, CHR 0x0B, CHR 0x0C, CHR 0x0D])"

definition TrimSpace :: "string \<Rightarrow> string" where
  "TrimSpace s = rev (dropWhile isSpace (rev (dropWhile isSpace s)))"

text \<open>\<^verbatim>\<open>strings.Join(elems, sep)\<close>.\<close>

fun Join :: "string list \<Rightarrow> string \<Rightarrow> string" where
  "Join [] sep = []"
| "Join [x] sep = x"
| "Join (x # y # ys) sep = x @ sep @ Join (y # ys) sep"

section \<open>The segment merger of \<^verbatim>\<open>processVideo\<close>\<close>

text \<open>
  One classified frame, as the loop body sees it: the frame's timestamp and the rating and
  notes returned by the classifier (the field \<^verbatim>\<open>rawNotes\<close>; \<^verbatim>\<open>notes\<close> is reserved).
\<close>

record Sample =
  timestamp :: real
  rating :: string
  rawNotes :: string

text \<open>
  The variables the loop carries: \<^verbatim>\<open>results\<close>, \<^verbatim>\<open>lastRating\<close>, \<^verbatim>\<open>startTime\<close> and the
  key set of the map \<^verbatim>\<open>combinedNotes\<close> (every stored value is \<^verbatim>\<open>true\<close>).
\<close>

record MergeState =
  results :: "RatingResult list"
  lastRating :: string
  startTime :: real
  combinedNotes :: "string set"

text \<open>Go's zero values and the fresh map.\<close>

definition initState :: MergeState where
  "initState = \<lparr>results = [], lastRating = [], startTime = 0, combinedNotes = {}\<rparr>"

text \<open>
  The note loop (it occurs twice in the source, lines 162-167 and 188-193): every field
  of the comma-split notes is lower-cased and trimmed, and stored unless it is empty or
  the word none.
\<close>

definition addNote :: "string set \<Rightarrow> string \<Rightarrow> string set" where
  "addNote m note =
     (let note' = TrimSpace (ToLower note)
      in if note' \<noteq> [] \<and> note' \<noteq> ''none'' then insert note' m else m)"

definition addNotes :: "string set \<Rightarrow> string \<Rightarrow> string set" where
  "addNotes m ns = foldl addNote m (Split ns CHR '','')"

text \<open>
  Emitting a segment (lines 170-182 and 201-213): the keys of the map in any order,
  sorted by \<^verbatim>\<open>sort.Strings\<close> (bytewise lexicographic) and joined by comma and space.
\<close>

definition notesStr :: "string set \<Rightarrow> string" where
  "notesStr m = Join (sorted_list_of_set m) '', ''"

definition emit :: "MergeState \<Rightarrow> real \<Rightarrow> RatingResult list" where
  "emit st e =
     (if lastRating st \<noteq> []
      then results st @
           [\<lparr>Start = startTime st, End = e, Rating = lastRating st,
             Notes = notesStr (combinedNotes st)\<rparr>]
      else results st)"

text \<open>The body of the loop for a classified frame (lines 161-194).\<close>

definition mergeStep :: "MergeState \<Rightarrow> Sample \<Rightarrow> MergeState" where
  "mergeStep st smp =
     (if rating smp = lastRating st
      then st\<lparr>combinedNotes := addNotes (combinedNotes st) (rawNotes smp)\<rparr>
      else \<lparr>results = emit st (timestamp smp - 1),
            lastRating = rating smp,
            startTime = timestamp smp,
            combinedNotes = addNotes {} (rawNotes smp)\<rparr>)"

text \<open>
  The merger: the loop body over the classified samples in order, then the closing of the
  segment still open after the loop (lines 200-214) at the total duration.
\<close>

definition merger :: "Sample list \<Rightarrow> real \<Rightarrow> RatingResult list" where
  "merger samples totalDuration = emit (foldl mergeStep initState samples) totalDuration"

section \<open>The analyzer: \<^verbatim>\<open>processVideo\<close>\<close>

text \<open>
  The external collaborators are inputs. A decoded frame carries what the external calls
  return if the frame is sampled: \<^verbatim>\<open>gocv.IMEncode\<close> fails, or
  \<^verbatim>\<open>analyzeFrameWithOpenAI\<close> fails with an error text, or it returns a rating and notes.
  A video is its frame-rate property and the frames that \<^verbatim>\<open>video.Read\<close> delivers.
\<close>

datatype Frame = EncodeError | ClassifierError string | Classified string string

record Video =
  fpsProp :: real
  frames :: "Frame list"

datatype error = OpenError | RuntimePanic

datatype LoopResult = Panic | Return "RatingResult list" | Finished nat MergeState

text \<open>
  The frame loop (lines 133-198). \<^verbatim>\<open>int(fps)\<close> truncates; \<^verbatim>\<open>fps\<close> is positive here, so
  that is the floor. The remainder by \<^verbatim>\<open>int(fps) = 0\<close> is a run-time panic in Go.
  A classifier error returns at once with the single synthetic segment (lines 154-159),
  whose \<^verbatim>\<open>End\<close> and \<^verbatim>\<open>Notes\<close> keep their zero values.
\<close>

fun frameLoop :: "real \<Rightarrow> Frame list \<Rightarrow> nat \<Rightarrow> MergeState \<Rightarrow> LoopResult" where
  "frameLoop fps [] frameIndex st = Finished frameIndex st"
| "frameLoop fps (f # fs) frameIndex st =
     (if \<lfloor>fps\<rfloor> = 0 then Panic
      else if int frameIndex mod \<lfloor>fps\<rfloor> = 0 then
        (case f of
           EncodeError \<Rightarrow> frameLoop fps fs (frameIndex + 1) st
         | ClassifierError err \<Rightarrow>
             Return [\<lparr>Start = real frameIndex / fps, End = 0,
                      Rating = ''Error: '' @ err, Notes = []\<rparr>]
         | Classified r ns \<Rightarrow>
             frameLoop fps fs (frameIndex + 1)
               (mergeStep st \<lparr>timestamp = real frameIndex / fps, rating = r, rawNotes = ns\<rparr>))
      else frameLoop fps fs (frameIndex + 1) st)"

text \<open>
  \<^verbatim>\<open>processVideo\<close>: \<^verbatim>\<open>None\<close> is a file that \<^verbatim>\<open>gocv.VideoCaptureFile\<close> cannot open. A
  frame rate that is not positive is replaced by 30. After the loop the open segment is
  closed at \<^verbatim>\<open>float64(frameIndex) / fps\<close>.
\<close>

definition processVideo :: "Video option \<Rightarrow> error + RatingResult list" where
  "processVideo v =
     (case v of
        None \<Rightarrow> Inl OpenError
      | Some video \<Rightarrow>
          (let fps = (if fpsProp video \<le> 0 then 30 else fpsProp video)
           in case frameLoop fps (frames video) 0 initState of
                Panic \<Rightarrow> Inl RuntimePanic
              | Return rs \<Rightarrow> Inr rs
              | Finished frameIndex st \<Rightarrow> Inr (emit st (real frameIndex / fps))))"

text \<open>
  The sample sequence of a video: the classified frames among the sampled ones, with
  their timestamps, from frame index \<open>i\<close> on.
\<close>

fun samplesFrom :: "real \<Rightarrow> Frame list \<Rightarrow> nat \<Rightarrow> Sample list" where
  "samplesFrom fps [] i = []"
| "samplesFrom fps (f # fs) i =
     (case f of
        Classified r ns \<Rightarrow>
          (if int i mod \<lfloor>fps\<rfloor> = 0
           then [\<lparr>timestamp = real i / fps, rating = r, rawNotes = ns\<rparr>]
           else [])
      | _ \<Rightarrow> []) @ samplesFrom fps fs (i + 1)"

text \<open>No sampled frame from index \<open>i\<close> on makes the classifier fail.\<close>

fun classifierOk :: "real \<Rightarrow> Frame list \<Rightarrow> nat \<Rightarrow> bool" where
  "classifierOk fps [] i = True"
| "classifierOk fps (f # fs) i =
     ((case f of ClassifierError err \<Rightarrow> int i mod \<lfloor>fps\<rfloor> \<noteq> 0 | _ \<Rightarrow> True)
      \<and> classifierOk fps fs (i + 1))"

section \<open>The editor: frame decisions\<close>

text \<open>
  What the render does with a frame: \<^verbatim>\<open>writer.Write(img)\<close> is \<open>Keep\<close>,
  \<^verbatim>\<open>writer.Write(blurred)\<close> is \<open>Transform\<close>, and writing nothing is \<open>Drop\<close>.
\<close>

datatype Decision = Keep | Transform | Drop

text \<open>
  The scan of \<^verbatim>\<open>blurInappropriateContent\<close> (lines 495-503): the comparison with the
  segment's bounds is exact, and the scan goes on past a segment that contains the frame
  but is not rated above the age.
\<close>

definition inSegmentBlur :: "real \<Rightarrow> RatingResult \<Rightarrow> bool" where
  "inSegmentBlur t r = (t \<ge> Start r \<and> t \<le> End r)"

fun shouldBlur :: "real \<Rightarrow> int \<Rightarrow> RatingResult list \<Rightarrow> bool" where
  "shouldBlur t age [] = False"
| "shouldBlur t age (r # rs) =
     (if inSegmentBlur t r
      then (if getRatingValue (Rating r) > age then True else shouldBlur t age rs)
      else shouldBlur t age rs)"

definition blurFrame :: "real \<Rightarrow> int \<Rightarrow> RatingResult list \<Rightarrow> Decision" where
  "blurFrame t age ratings = (if shouldBlur t age ratings then Transform else Keep)"

text \<open>
  The scan of \<^verbatim>\<open>trimInappropriateContent\<close> (lines 543-570): the comparison has the
  tolerance \<^verbatim>\<open>epsilon\<close>, and the scan stops at the first segment that contains the
  frame. The result is the pair of \<^verbatim>\<open>shouldInclude\<close> and \<^verbatim>\<open>inRatedSegment\<close>.
\<close>

definition epsilon :: real where
  "epsilon = 0.001"

definition inSegmentTrim :: "real \<Rightarrow> RatingResult \<Rightarrow> bool" where
  "inSegmentTrim t r = (t \<ge> Start r - epsilon \<and> t \<le> End r + epsilon)"

fun trimScan :: "real \<Rightarrow> int \<Rightarrow> RatingResult list \<Rightarrow> bool \<times> bool" where
  "trimScan t age [] = (False, False)"
| "trimScan t age (r # rs) =
     (if inSegmentTrim t r
      then (if getRatingValue (Rating r) \<le> age then (True, True) else (False, True))
      else trimScan t age rs)"

definition trimFrame :: "real \<Rightarrow> int \<Rightarrow> RatingResult list \<Rightarrow> Decision" where
  "trimFrame t age ratings =
     (case trimScan t age ratings of
        (shouldInclude, inRatedSegment) \<Rightarrow>
          if (if \<not> inRatedSegment then False else shouldInclude) then Keep else Drop)"

text \<open>
  The two render loops over the frames of the video: \<open>n\<close> frames can still be read, and
  the loop also stops at \<^verbatim>\<open>totalFrames\<close>. The result lists the decision for each frame
  in order. The trim loop evaluates \<^verbatim>\<open>frameIndex%int(fps)\<close> for its log line before it
  writes the frame, which is a run-time panic when \<^verbatim>\<open>int(fps)\<close> is 0 (\<open>None\<close>).
  \<^verbatim>\<open>trimInappropriateContent\<close> first sorts the segments by \<^verbatim>\<open>Start\<close>
  (\<^verbatim>\<open>sort.Slice\<close>; the order of segments with equal starts is taken to be kept).
\<close>

fun blurLoop :: "RatingResult list \<Rightarrow> int \<Rightarrow> real \<Rightarrow> int \<Rightarrow> nat \<Rightarrow> nat \<Rightarrow> Decision list" where
  "blurLoop ratings age fps totalFrames 0 frameIndex = []"
| "blurLoop ratings age fps totalFrames (Suc n) frameIndex =
     (if int frameIndex \<ge> totalFrames then []
      else blurFrame (real frameIndex / fps) age ratings
           # blurLoop ratings age fps totalFrames n (frameIndex + 1))"

fun trimLoop ::
  "RatingResult list \<Rightarrow> int \<Rightarrow> real \<Rightarrow> int \<Rightarrow> nat \<Rightarrow> nat \<Rightarrow> Decision list option" where
  "trimLoop ratings age fps totalFrames 0 frameIndex = Some []"
| "trimLoop ratings age fps totalFrames (Suc n) frameIndex =
     (if int frameIndex \<ge> totalFrames then Some []
      else if \<lfloor>fps\<rfloor> = 0 then None
      else map_option ((#) (trimFrame (real frameIndex / fps) age ratings))
             (trimLoop ratings age fps totalFrames n (frameIndex + 1)))"

definition blurInappropriateContent ::
  "RatingResult list \<Rightarrow> int \<Rightarrow> real \<Rightarrow> int \<Rightarrow> nat \<Rightarrow> Decision list" where
  "blurInappropriateContent ratings age fps totalFrames n =
     blurLoop ratings age fps totalFrames n 0"

definition trimInappropriateContent ::
  "RatingResult list \<Rightarrow> int \<Rightarrow> real \<Rightarrow> int \<Rightarrow> nat \<Rightarrow> Decision list option" where
  "trimInappropriateContent ratings age fps totalFrames n =
     trimLoop (sort_key Start ratings) age fps totalFrames n 0"

section \<open>The convert request\<close>

text \<open>
  The video opened by \<^verbatim>\<open>processVideoByAge\<close>: its frame-rate and frame-count properties
  and the number of frames that can be read.
\<close>

record Capture =
  captureFps :: real
  frameCount :: int
  readable :: nat

text \<open>
  The uploaded file of the form: whether \<^verbatim>\<open>c.SaveUploadedFile\<close> succeeds, the video that
  \<^verbatim>\<open>gocv.VideoCaptureFile\<close> opens (\<open>None\<close> when it fails), and whether
  \<^verbatim>\<open>gocv.VideoWriterFile\<close> succeeds.
\<close>

record Upload =
  saveOk :: bool
  capture :: "Capture option"
  writerOk :: bool

text \<open>
  The \<^verbatim>\<open>ratings\<close> form field: blank, or text that \<^verbatim>\<open>json.Unmarshal\<close> rejects with an
  error text, or a parsed segment list.
\<close>

datatype RatingsField = Blank | Malformed string | Parsed "RatingResult list"

record ConvertForm =
  age :: string
  video_type :: string
  ratingsField :: RatingsField
  video_path :: "Upload option"

text \<open>
  The response: the two error statuses with their message, success with the decisions of
  the render (the content of the processed file), or a panic of the handler.
\<close>

datatype Response =
  BadRequest string | InternalServerError string | OK "Decision list" | Panicked

text \<open>
  \<^verbatim>\<open>strconv.Atoi\<close>: an optional sign and decimal digits, within the 64-bit range.
\<close>

definition digitVal :: "char \<Rightarrow> nat option" where
  "digitVal c = map_of (zip ''0123456789'' [0, 1, 2, 3, 4, 5, 6, 7, 8, 9]) c"

fun parseDigits :: "string \<Rightarrow> nat \<Rightarrow> nat option" where
  "parseDigits [] acc = Some acc"
| "parseDigits (c # cs) acc =
     (case digitVal c of
        None \<Rightarrow> None
      | Some d \<Rightarrow> parseDigits cs (10 * acc + d))"

definition Atoi :: "string \<Rightarrow> int option" where
  "Atoi s =
     (case (case s of
              [] \<Rightarrow> (False, s)
            | c # r \<Rightarrow> if c = CHR ''-'' then (True, r)
                       else if c = CHR ''+'' then (False, r) else (False, s)) of
        (neg, ds) \<Rightarrow>
          if ds = [] then None
          else (case parseDigits ds 0 of
                  None \<Rightarrow> None
                | Some n \<Rightarrow>
                    (let v = (if neg then - int n else int n)
                     in if v < - (2 ^ 63) \<or> v \<ge> 2 ^ 63 then None else Some v)))"

text \<open>
  \<^verbatim>\<open>processVideoByAge\<close>: opens the video and the writer, then renders in blur mode when
  the type is \<^verbatim>\<open>blur\<close> and in trim mode otherwise. \<open>Inl\<close> is the returned error
  (the fixed part of its text), \<open>Inr None\<close> a panic of the trim loop.
\<close>

definition processVideoByAge ::
  "Upload \<Rightarrow> int \<Rightarrow> RatingResult list \<Rightarrow> string \<Rightarrow> string + Decision list option" where
  "processVideoByAge file ageInt ratings videoType =
     (case capture file of
        None \<Rightarrow> Inl ''failed to open video''
      | Some video \<Rightarrow>
          (let fps = (if captureFps video \<le> 0 then 30 else captureFps video)
           in if \<not> writerOk file then Inl ''failed to create video writer''
              else if videoType = ''blur''
              then Inr (Some (blurInappropriateContent ratings ageInt fps
                                (frameCount video) (readable video)))
              else Inr (trimInappropriateContent ratings ageInt fps
                          (frameCount video) (readable video))))"

text \<open>\<^verbatim>\<open>convertVideo\<close>, with the checks in the order of the source (lines 333-397).\<close>

definition convertVideo :: "ConvertForm \<Rightarrow> Response" where
  "convertVideo form =
     (case video_path form of
        None \<Rightarrow> BadRequest ''No video file provided''
      | Some file \<Rightarrow>
          (case ratingsField form of
             Malformed err \<Rightarrow> BadRequest (''Invalid ratings format: '' @ err)
           | other \<Rightarrow>
               (let ratings = (case other of Parsed rs \<Rightarrow> rs | _ \<Rightarrow> [])
                in if age form = [] then BadRequest ''Age is required''
                   else if video_type form = [] then BadRequest ''Video type is required''
                   else if age form \<noteq> ''6'' \<and> age form \<noteq> ''12'' \<and> age form \<noteq> ''16''
                   then BadRequest ''Age must be one of: 6, 12, 16''
                   else if video_type form \<noteq> ''blur'' \<and> video_type form \<noteq> ''trim''
                   then BadRequest ''Video type must be one of: blur, trim''
                   else if \<not> saveOk file then InternalServerError ''Failed to save video file''
                   else (case Atoi (age form) of
                           None \<Rightarrow> BadRequest (''Invalid age format: '' @ age form)
                         | Some ageInt \<Rightarrow>
                             (case processVideoByAge file ageInt ratings (video_type form) of
                                Inl err \<Rightarrow> InternalServerError err
                              | Inr None \<Rightarrow> Panicked
                              | Inr (Some out) \<Rightarrow> OK out)))))"

section \<open>Notions used in the statements\<close>

text \<open>
  The tokens of a notes string: its comma-separated fields, lower-cased and trimmed,
  without the empty token and the token none.
\<close>

definition noteTokens :: "string \<Rightarrow> string set" where
  "noteTokens ns =
     (\<lambda>f. TrimSpace (ToLower f)) ` set (Split ns CHR '','') - {[], ''none''}"

text \<open>
  A time lies in the closed interval of some segment of the list, or strictly inside the
  unit interval that follows the end of some segment.
\<close>

definition covered :: "RatingResult list \<Rightarrow> real \<Rightarrow> bool" where
  "covered segs x = list_ex (\<lambda>s. Start s \<le> x \<and> x \<le> End s) segs"

definition inUnitGap :: "RatingResult list \<Rightarrow> real \<Rightarrow> bool" where
  "inUnitGap segs x = list_ex (\<lambda>s. End s < x \<and> x < End s + 1) segs"

text \<open>Scenario A of the specification: three samples, one second apart.\<close>

definition scenarioA :: "Sample list" where
  "scenarioA =
     [\<lparr>timestamp = 0, rating = ''6+'', rawNotes = ''kids''\<rparr>,
      \<lparr>timestamp = 1, rating = ''6+'', rawNotes = ''forest''\<rparr>,
      \<lparr>timestamp = 2, rating = ''12+'', rawNotes = ''fight''\<rparr>]"

text \<open>An upload that can be saved, opened and written: three frames at one frame per second.\<close>

definition demoUpload :: Upload where
  "demoUpload = \<lparr>saveOk = True,
                  capture = Some \<lparr>captureFps = 1, frameCount = 3, readable = 3\<rparr>,
                  writerOk = True\<rparr>"

section \<open>Properties of the rating scale\<close>

text \<open>
  C8. \<^verbatim>\<open>getRatingValue\<close> is a total function that maps the four labels to 6, 12, 16
  and 18 and every other string, the empty one included, to 0; the values follow the
  fixed order none (0) < 6+ < 12+ < 16+ < 18+.
\<close>

theorem getRatingValue_table:
  "getRatingValue ''6+'' = 6 \<and> getRatingValue ''12+'' = 12 \<and>
   getRatingValue ''16+'' = 16 \<and> getRatingValue ''18+'' = 18 \<and>
   getRatingValue '''' = 0 \<and>
   (\<forall>s. s \<noteq> ''6+'' \<and> s \<noteq> ''12+'' \<and> s \<noteq> ''16+'' \<and> s \<noteq> ''18+'' \<longrightarrow> getRatingValue s = 0) \<and>
   (\<forall>s. getRatingValue s \<in> {0, 6, 12, 16, 18}) \<and>
   getRatingValue ''none'' < getRatingValue ''6+'' \<and>
   getRatingValue ''6+'' < getRatingValue ''12+'' \<and>
   getRatingValue ''12+'' < getRatingValue ''16+'' \<and>
   getRatingValue ''16+'' < getRatingValue ''18+''"
  by (simp add: getRatingValue_def)

theorem getRatingValue_table_witness:
  "''PG'' \<noteq> ''6+'' \<and> ''PG'' \<noteq> ''12+'' \<and> ''PG'' \<noteq> ''16+'' \<and> ''PG'' \<noteq> ''18+'' \<and>
   getRatingValue ''PG'' = 0"
  using getRatingValue_table by simp

section \<open>Lemmas about the merger\<close>

text \<open>
  The note loop adds the tokens of the notes to the set. The segments already emitted stay
  in front of the result, and while no segment is open the result depends on the emitted
  segments only; so the merged list splits at every change of rating.
\<close>

lemma foldl_addNote: "foldl addNote m fs = m \<union> ((\<lambda>f. TrimSpace (ToLower f)) ` set fs - {[], ''none''})"
  by (induction fs arbitrary: m) (auto simp: addNote_def Let_def)

lemma addNotes_union: "addNotes m ns = m \<union> noteTokens ns"
  by (simp add: addNotes_def noteTokens_def foldl_addNote)






lemma emit_foldl_absent:
  "lastRating st = [] \<Longrightarrow> lastRating st' = [] \<Longrightarrow> results st = results st' \<Longrightarrow>
   emit (foldl mergeStep st xs) e = emit (foldl mergeStep st' xs) e"
proof (induction xs arbitrary: st st')
  case Nil
  then show ?case by (simp add: emit_def)
next
  case (Cons x xs)
  show ?case
  proof (cases "rating x = []")
    case True
    have "emit (foldl mergeStep (mergeStep st x) xs) e = emit (foldl mergeStep (mergeStep st' x) xs) e"
      by (rule Cons.IH) (use True Cons.prems in \<open>simp_all add: mergeStep_def\<close>)
    then show ?thesis by simp
  next
    case False
    then have "mergeStep st x = mergeStep st' x"
      using Cons.prems by (simp add: mergeStep_def emit_def)
    then show ?thesis by simp
  qed
qed


lemma merger_Nil: "merger [] e = []"
  by (simp add: merger_def initState_def emit_def)


lemma foldl_same_rating:
  "lastRating st = r \<Longrightarrow> \<forall>s\<in>set xs. rating s = r \<Longrightarrow>
   foldl mergeStep st xs =
   st\<lparr>combinedNotes := combinedNotes st \<union> (\<Union>s\<in>set xs. noteTokens (rawNotes s))\<rparr>"
proof (induction xs arbitrary: st)
  case Nil
  then show ?case by simp
next
  case (Cons x xs)
  have step: "mergeStep st x = st\<lparr>combinedNotes := combinedNotes st \<union> noteTokens (rawNotes x)\<rparr>"
    using Cons.prems by (simp add: mergeStep_def addNotes_union)
  have "foldl mergeStep (mergeStep st x) xs =
        (mergeStep st x)\<lparr>combinedNotes := combinedNotes (mergeStep st x) \<union> (\<Union>s\<in>set xs. noteTokens (rawNotes s))\<rparr>"
    by (rule Cons.IH) (use Cons.prems step in simp_all)
  then show ?case by (simp add: step Un_assoc)
qed



lemma ordered_foldl:
  assumes "sorted_wrt (<) (map timestamp xs)"
    and "sorted_wrt (\<lambda>a b. Start a < Start b \<and> End a + 1 \<le> Start b) (results st)"
    and "\<forall>s\<in>set (results st). Start s < startTime st \<and> End s + 1 \<le> startTime st"
    and "lastRating st \<noteq> [] \<or> results st \<noteq> [] \<longrightarrow> (\<forall>x\<in>set xs. startTime st < timestamp x)"
  shows "sorted_wrt (\<lambda>a b. Start a < Start b \<and> End a + 1 \<le> Start b) (results (foldl mergeStep st xs)) \<and>
         (\<forall>s\<in>set (results (foldl mergeStep st xs)).
            Start s < startTime (foldl mergeStep st xs) \<and> End s + 1 \<le> startTime (foldl mergeStep st xs))"
  using assms
proof (induction xs arbitrary: st)
  case Nil
  then show ?case by simp
next
  case (Cons x xs)
  let ?nxt = "mergeStep st x"
  have a1: "sorted_wrt (<) (map timestamp xs)" using Cons.prems(1) by simp
  have a2: "sorted_wrt (\<lambda>a b. Start a < Start b \<and> End a + 1 \<le> Start b) (results ?nxt)"
    using Cons.prems(2,3,4) by (auto simp: mergeStep_def emit_def sorted_wrt_append)
  have a3: "\<forall>s\<in>set (results ?nxt). Start s < startTime ?nxt \<and> End s + 1 \<le> startTime ?nxt"
  proof (cases "rating x = lastRating st")
    case True
    then show ?thesis using Cons.prems(3) by (simp add: mergeStep_def)
  next
    case False
    show ?thesis
    proof (cases "results st = [] \<and> lastRating st = []")
      case True
      then show ?thesis using False by (simp add: mergeStep_def emit_def)
    next
      case ne: False
      then have lt: "startTime st < timestamp x" using Cons.prems(4) by auto
      have "\<forall>s\<in>set (results st). Start s < timestamp x \<and> End s + 1 \<le> timestamp x"
        using Cons.prems(3) lt by fastforce
      then show ?thesis using False lt by (simp add: mergeStep_def emit_def)
    qed
  qed
  have a4: "lastRating ?nxt \<noteq> [] \<or> results ?nxt \<noteq> [] \<longrightarrow> (\<forall>y\<in>set xs. startTime ?nxt < timestamp y)"
    using Cons.prems(1,4) by (auto simp: mergeStep_def emit_def)
  from Cons.IH [OF a1 a2 a3 a4] show ?case by simp
qed

lemma merger_ordered:
  assumes "sorted_wrt (<) (map timestamp xs)"
  shows "sorted_wrt (\<lambda>a b. Start a < Start b \<and> End a < Start b) (merger xs e)"
proof -
  let ?st = "foldl mergeStep initState xs"
  have "sorted_wrt (\<lambda>a b. Start a < Start b \<and> End a + 1 \<le> Start b) (results ?st) \<and>
        (\<forall>s\<in>set (results ?st). Start s < startTime ?st \<and> End s + 1 \<le> startTime ?st)"
    by (rule ordered_foldl [OF assms]) (simp_all add: initState_def)
  then have "sorted_wrt (\<lambda>a b. Start a < Start b \<and> End a + 1 \<le> Start b) (merger xs e)"
    by (auto simp: merger_def emit_def sorted_wrt_append)
  then show ?thesis
    by (rule sorted_wrt_mono_rel [rotated]) auto
qed

lemma chain_foldl:
  assumes "\<forall>x\<in>set xs. rating x \<noteq> []"
    and "lastRating st \<noteq> []"
    and "successively (\<lambda>a b. Start b = End a + 1) (results st)"
    and "results st \<noteq> [] \<longrightarrow> startTime st = End (last (results st)) + 1"
    and "(results st = [] \<longrightarrow> startTime st = t0) \<and> (results st \<noteq> [] \<longrightarrow> Start (hd (results st)) = t0)"
  shows "lastRating (foldl mergeStep st xs) \<noteq> [] \<and>
         successively (\<lambda>a b. Start b = End a + 1) (results (foldl mergeStep st xs)) \<and>
         (results (foldl mergeStep st xs) \<noteq> [] \<longrightarrow>
            startTime (foldl mergeStep st xs) = End (last (results (foldl mergeStep st xs))) + 1) \<and>
         (results (foldl mergeStep st xs) = [] \<longrightarrow> startTime (foldl mergeStep st xs) = t0) \<and>
         (results (foldl mergeStep st xs) \<noteq> [] \<longrightarrow> Start (hd (results (foldl mergeStep st xs))) = t0)"
  using assms
proof (induction xs arbitrary: st)
  case Nil
  then show ?case by (simp split: if_splits)
next
  case (Cons x xs)
  let ?nxt = "mergeStep st x"
  have b1: "\<forall>y\<in>set xs. rating y \<noteq> []" using Cons.prems(1) by simp
  have b2: "lastRating ?nxt \<noteq> []" using Cons.prems(1,2) by (simp add: mergeStep_def)
  have b3: "successively (\<lambda>a b. Start b = End a + 1) (results ?nxt)"
    using Cons.prems(2,3,4) by (auto simp: mergeStep_def emit_def successively_append_iff)
  have b4: "results ?nxt \<noteq> [] \<longrightarrow> startTime ?nxt = End (last (results ?nxt)) + 1"
    using Cons.prems(2,4) by (auto simp: mergeStep_def emit_def)
  have b5: "(results ?nxt = [] \<longrightarrow> startTime ?nxt = t0) \<and> (results ?nxt \<noteq> [] \<longrightarrow> Start (hd (results ?nxt)) = t0)"
    using Cons.prems(2,5) by (auto simp: mergeStep_def emit_def hd_append)
  from Cons.IH [OF b1 b2 b3 b4 b5] show ?case by simp
qed

lemma merger_chain:
  assumes "xs \<noteq> []" and "\<forall>x\<in>set xs. rating x \<noteq> []"
  shows "merger xs e \<noteq> [] \<and> Start (hd (merger xs e)) = timestamp (hd xs) \<and>
         End (last (merger xs e)) = e \<and>
         successively (\<lambda>a b. Start b = End a + 1) (merger xs e)"
proof -
  obtain x ys where xs: "xs = x # ys" using assms(1) by (cases xs) auto
  let ?fst = "mergeStep initState x"
  let ?st = "foldl mergeStep ?fst ys"
  have rx: "rating x \<noteq> []" using assms(2) xs by simp
  have st0: "?fst = \<lparr>results = [], lastRating = rating x, startTime = timestamp x,
                      combinedNotes = addNotes {} (rawNotes x)\<rparr>"
    using rx by (simp add: mergeStep_def initState_def emit_def)
  have "lastRating ?st \<noteq> [] \<and>
         successively (\<lambda>a b. Start b = End a + 1) (results ?st) \<and>
         (results ?st \<noteq> [] \<longrightarrow> startTime ?st = End (last (results ?st)) + 1) \<and>
         (results ?st = [] \<longrightarrow> startTime ?st = timestamp x) \<and>
         (results ?st \<noteq> [] \<longrightarrow> Start (hd (results ?st)) = timestamp x)"
    by (rule chain_foldl [of ys ?fst "timestamp x"]) (use assms(2) xs rx in \<open>simp_all add: st0\<close>)
  then show ?thesis
    by (auto simp: merger_def xs emit_def successively_append_iff hd_append)
qed

lemma chain_cover:
  assumes "segs \<noteq> []" and "successively (\<lambda>a b. Start b = End a + 1) segs"
    and "Start (hd segs) \<le> x" and "x \<le> End (last segs)"
  shows "covered segs x \<or> inUnitGap segs x"
  using assms
proof (induction segs rule: list_nonempty_induct)
  case (single s)
  then show ?case by (simp add: covered_def inUnitGap_def)
next
  case (cons s segs)
  show ?case
  proof (cases "x < End s + 1")
    case True
    then show ?thesis using cons.prems(2) by (auto simp: covered_def inUnitGap_def)
  next
    case False
    obtain s' rest where segs: "segs = s' # rest" using cons.hyps by (cases segs) auto
    have "covered segs x \<or> inUnitGap segs x"
      by (rule cons.IH) (use cons.prems False segs in auto)
    then show ?thesis by (auto simp: covered_def inUnitGap_def)
  qed
qed




lemma results_nonempty_rating:
  "\<forall>s\<in>set (results st). Rating s \<noteq> [] \<Longrightarrow>
   \<forall>s\<in>set (results (foldl mergeStep st xs)). Rating s \<noteq> []"
proof (induction xs arbitrary: st)
  case Nil
  then show ?case by simp
next
  case (Cons x xs)
  have "\<forall>s\<in>set (results (mergeStep st x)). Rating s \<noteq> []"
    using Cons.prems by (auto simp: mergeStep_def emit_def)
  from Cons.IH [OF this] show ?case by simp
qed

lemma merger_nonempty_rating: "\<forall>s\<in>set (merger xs e). Rating s \<noteq> []"
  using results_nonempty_rating [of initState xs]
  by (auto simp: merger_def emit_def initState_def)

lemma origin_foldl:
  "(\<forall>s\<in>set (results (foldl mergeStep initState xs)).
      \<exists>x\<in>set xs. rating x = Rating s \<and> timestamp x = Start s) \<and>
   (lastRating (foldl mergeStep initState xs) \<noteq> [] \<longrightarrow>
      (\<exists>x\<in>set xs. rating x = lastRating (foldl mergeStep initState xs) \<and>
                   timestamp x = startTime (foldl mergeStep initState xs)))"
proof (induction xs rule: rev_induct)
  case Nil
  show ?case by (simp add: initState_def)
next
  case (snoc x xs)
  then show ?case
    by (auto simp: mergeStep_def emit_def)
qed

lemma merger_origin:
  "\<forall>s\<in>set (merger xs e). \<exists>x\<in>set xs. rating x = Rating s \<and> timestamp x = Start s"
  using origin_foldl [of xs] by (auto simp: merger_def emit_def)

lemma merger_leading_absent:
  assumes "\<forall>x\<in>set lead. rating x = []"
  shows "merger (lead @ rest) e = merger rest e"
proof -
  have "foldl mergeStep initState lead =
        initState\<lparr>combinedNotes := combinedNotes initState \<union> (\<Union>s\<in>set lead. noteTokens (rawNotes s))\<rparr>"
    by (rule foldl_same_rating [where r = "[]"]) (use assms in \<open>simp_all add: initState_def\<close>)
  then have "emit (foldl mergeStep (foldl mergeStep initState lead) rest) e =
             emit (foldl mergeStep initState rest) e"
    by (intro emit_foldl_absent) (simp_all add: initState_def)
  then show ?thesis by (simp add: merger_def)
qed


text \<open>Evaluation of the merger on concrete samples.\<close>

lemmas eval_defs = merger_def initState_def mergeStep_def emit_def addNotes_def addNote_def
  TrimSpace_def ToLower_def ToLowerByte_def isSpace_def notesStr_def

lemma scenarioA_merged:
  "merger scenarioA 3 =
     [\<lparr>Start = 0, End = 1, Rating = ''6+'', Notes = ''forest, kids''\<rparr>,
      \<lparr>Start = 2, End = 3, Rating = ''12+'', Notes = ''fight''\<rparr>]"
  by (simp add: scenarioA_def eval_defs)



section \<open>Properties of the merger\<close>

text \<open>
  C1, as amended. For samples with strictly increasing timestamps, the segments returned by
  the merger are ordered by start and do not overlap: each segment starts after the start
  and after the end of every earlier one. When in addition the sequence is not empty and
  no rating is empty, the first segment starts at the first timestamp, the last one ends at
  the total duration, and each segment starts exactly one time unit after the end of its
  predecessor; so every time between the first timestamp and the total duration lies in a
  segment or strictly inside the unit gap after the end of a segment. The empty sample
  sequence gives the empty list, and \<^verbatim>\<open>processVideo\<close> returns it without error for a
  video with no frame.
\<close>

theorem merger_ordered_chain:
  assumes "sorted_wrt (<) (map timestamp samples)"
  shows "sorted_wrt (\<lambda>a b. Start a < Start b \<and> End a < Start b) (merger samples e) \<and>
         (samples \<noteq> [] \<and> (\<forall>s\<in>set samples. rating s \<noteq> []) \<longrightarrow>
            merger samples e \<noteq> [] \<and>
            Start (hd (merger samples e)) = timestamp (hd samples) \<and>
            End (last (merger samples e)) = e \<and>
            successively (\<lambda>a b. Start b = End a + 1) (merger samples e) \<and>
            (\<forall>x. timestamp (hd samples) \<le> x \<and> x \<le> e \<longrightarrow>
                 covered (merger samples e) x \<or> inUnitGap (merger samples e) x)) \<and>
         merger [] e = [] \<and>
         processVideo (Some \<lparr>fpsProp = p, frames = []\<rparr>) = Inr []"
proof (intro conjI impI)
  show "sorted_wrt (\<lambda>a b. Start a < Start b \<and> End a < Start b) (merger samples e)"
    by (rule merger_ordered [OF assms])
next
  assume h: "samples \<noteq> [] \<and> (\<forall>s\<in>set samples. rating s \<noteq> [])"
  then have c: "merger samples e \<noteq> [] \<and> Start (hd (merger samples e)) = timestamp (hd samples) \<and>
         End (last (merger samples e)) = e \<and>
         successively (\<lambda>a b. Start b = End a + 1) (merger samples e)"
    using merger_chain [of samples e] by blast
  show "merger samples e \<noteq> []" using c by blast
  show "Start (hd (merger samples e)) = timestamp (hd samples)" using c by blast
  show "End (last (merger samples e)) = e" using c by blast
  show "successively (\<lambda>a b. Start b = End a + 1) (merger samples e)" using c by blast
  show "\<forall>x. timestamp (hd samples) \<le> x \<and> x \<le> e \<longrightarrow>
            covered (merger samples e) x \<or> inUnitGap (merger samples e) x"
    using c chain_cover [of "merger samples e"] by auto
next
  show "merger [] e = []" by (rule merger_Nil)
next
  show "processVideo (Some \<lparr>fpsProp = p, frames = []\<rparr>) = Inr []"
    by (simp add: processVideo_def initState_def emit_def)
qed

theorem merger_ordered_chain_witness:
  "sorted_wrt (<) (map timestamp scenarioA) \<and>
   scenarioA \<noteq> [] \<and> list_all (\<lambda>s. rating s \<noteq> []) scenarioA \<and>
   sorted_wrt (\<lambda>a b. Start a < Start b \<and> End a < Start b) (merger scenarioA 3) \<and>
   Start (hd (merger scenarioA 3)) = 0 \<and> End (last (merger scenarioA 3)) = 3 \<and>
   successively (\<lambda>a b. Start b = End a + 1) (merger scenarioA 3) \<and>
   (covered (merger scenarioA 3) (5 / 2) \<or> inUnitGap (merger scenarioA 3) (5 / 2))"
proof -
  have h1: "sorted_wrt (<) (map timestamp scenarioA)" by (simp add: scenarioA_def)
  have h2: "scenarioA \<noteq> [] \<and> (\<forall>s\<in>set scenarioA. rating s \<noteq> [])" by (simp add: scenarioA_def)
  have h3: "timestamp (hd scenarioA) = 0" by (simp add: scenarioA_def)
  show ?thesis
    using merger_ordered_chain [OF h1, of 3] h1 h2 h3 by (simp add: list_all_iff)
qed

text \<open>
  The claim as stated asks for no gaps. In scenario A the time 1.5 lies between the first
  timestamp 0 and the total duration 3, and in no segment: the first segment is closed at
  2 - 1 = 1 and the next one starts at 2.
\<close>

theorem merger_gap_counterexample:
  "timestamp (hd scenarioA) \<le> 3 / 2 \<and> (3 / 2 :: real) \<le> 3 \<and>
   \<not> covered (merger scenarioA 3) (3 / 2)"
  by (simp add: scenarioA_merged covered_def) (simp add: scenarioA_def)






text \<open>
  C10. No segment returned by the merger has an empty rating, and every segment starts at
  the timestamp of a sample with the segment's rating, which is not empty: a sample with
  an empty rating never opens a segment. A leading run of samples with empty rating is
  discarded with its notes: the result is that of the remaining samples. When every
  rating is empty the result is the empty list.
\<close>

theorem no_empty_rating_segment:
  "(\<forall>s\<in>set (merger samples e). Rating s \<noteq> [] \<and>
      (\<exists>x\<in>set samples. rating x \<noteq> [] \<and> rating x = Rating s \<and> timestamp x = Start s)) \<and>
   ((\<forall>x\<in>set lead. rating x = []) \<longrightarrow> merger (lead @ rest) e = merger rest e) \<and>
   ((\<forall>x\<in>set samples. rating x = []) \<longrightarrow> merger samples e = [])"
proof (intro conjI impI)
  show "\<forall>s\<in>set (merger samples e). Rating s \<noteq> [] \<and>
      (\<exists>x\<in>set samples. rating x \<noteq> [] \<and> rating x = Rating s \<and> timestamp x = Start s)"
  proof
    fix s assume s: "s \<in> set (merger samples e)"
    then have r: "Rating s \<noteq> []" using merger_nonempty_rating [of samples e] by blast
    from s obtain x where x: "x \<in> set samples" "rating x = Rating s" "timestamp x = Start s"
      using merger_origin [of samples e] by blast
    from r x(2) have "rating x \<noteq> []" by simp
    with r x show "Rating s \<noteq> [] \<and>
      (\<exists>x\<in>set samples. rating x \<noteq> [] \<and> rating x = Rating s \<and> timestamp x = Start s)"
      by blast
  qed
next
  assume "\<forall>x\<in>set lead. rating x = []"
  then show "merger (lead @ rest) e = merger rest e" by (rule merger_leading_absent)
next
  assume "\<forall>x\<in>set samples. rating x = []"
  then show "merger samples e = []"
    using merger_leading_absent [of samples "[]" e] by (simp add: merger_Nil)
qed

theorem no_empty_rating_segment_witness:
  "list_all (\<lambda>x. rating x = []) [\<lparr>timestamp = 0, rating = [], rawNotes = ''blood''\<rparr>] \<and>
   merger ([\<lparr>timestamp = 0, rating = [], rawNotes = ''blood''\<rparr>] @
           [\<lparr>timestamp = 1, rating = ''6+'', rawNotes = ''kids''\<rparr>]) 2 =
   merger [\<lparr>timestamp = 1, rating = ''6+'', rawNotes = ''kids''\<rparr>] 2 \<and>
   merger [\<lparr>timestamp = 1, rating = ''6+'', rawNotes = ''kids''\<rparr>] 2 =
     [\<lparr>Start = 1, End = 2, Rating = ''6+'', Notes = ''kids''\<rparr>] \<and>
   merger [\<lparr>timestamp = 0, rating = [], rawNotes = ''blood''\<rparr>] 2 = []"
  using no_empty_rating_segment
    [of "[\<lparr>timestamp = 0, rating = [], rawNotes = ''blood''\<rparr>]" 2
        "[\<lparr>timestamp = 0, rating = [], rawNotes = ''blood''\<rparr>]"
        "[\<lparr>timestamp = 1, rating = ''6+'', rawNotes = ''kids''\<rparr>]"]
  by (simp add: eval_defs)

section \<open>Lemmas about the frame loop\<close>

text \<open>
  As long as no sampled frame makes the classifier fail, the frame loop runs the loop body
  of the merger over the sample sequence of the frames.
\<close>

lemma frameLoop_append:
  "\<lfloor>fps\<rfloor> \<noteq> 0 \<Longrightarrow> classifierOk fps pre i \<Longrightarrow>
   frameLoop fps (pre @ rest) i st =
   frameLoop fps rest (i + length pre) (foldl mergeStep st (samplesFrom fps pre i))"
proof (induction pre arbitrary: i st)
  case Nil
  show ?case by simp
next
  case (Cons f pre)
  have ok: "classifierOk fps pre (i + 1)" using Cons.prems(2) by simp
  note IH = Cons.IH [OF Cons.prems(1) ok]
  show ?case
  proof (cases f)
    case EncodeError
    then show ?thesis using Cons.prems(1) IH [of st] by simp
  next
    case (ClassifierError err)
    then have "int i mod \<lfloor>fps\<rfloor> \<noteq> 0" using Cons.prems(2) by simp
    then show ?thesis using ClassifierError Cons.prems(1) IH [of st] by simp
  next
    case (Classified r ns)
    show ?thesis
    proof (cases "int i mod \<lfloor>fps\<rfloor> = 0")
      case True
      then show ?thesis
        using Classified Cons.prems(1)
          IH [of "mergeStep st \<lparr>timestamp = real i / fps, rating = r, rawNotes = ns\<rparr>"]
        by simp
    next
      case False
      then show ?thesis using Classified Cons.prems(1) IH [of st] by simp
    qed
  qed
qed

lemma samplesFrom_sorted:
  assumes "0 < fps"
  shows "sorted_wrt (<) (map timestamp (samplesFrom fps fs i)) \<and>
         (\<forall>x\<in>set (samplesFrom fps fs i). real i / fps \<le> timestamp x)"
proof (induction fs arbitrary: i)
  case Nil
  show ?case by simp
next
  case (Cons f fs)
  have lt: "real i / fps < real (i + 1) / fps"
    using assms by (simp add: divide_strict_right_mono)
  have tail: "\<forall>x\<in>set (samplesFrom fps fs (i + 1)). real i / fps < timestamp x"
    using Cons.IH [of "i + 1"] lt by fastforce
  show ?case
    using Cons.IH [of "i + 1"] tail by (cases f) (auto simp: less_imp_le)
qed

lemma processVideo_merger:
  assumes "0 < fps" and "\<lfloor>fps\<rfloor> \<noteq> 0" and "classifierOk fps fs 0"
  shows "processVideo (Some \<lparr>fpsProp = fps, frames = fs\<rparr>) =
           Inr (merger (samplesFrom fps fs 0) (real (length fs) / fps)) \<and>
         sorted_wrt (<) (map timestamp (samplesFrom fps fs 0))"
proof -
  have "frameLoop fps (fs @ []) 0 initState =
        frameLoop fps [] (0 + length fs) (foldl mergeStep initState (samplesFrom fps fs 0))"
    by (rule frameLoop_append [OF assms(2,3)])
  then show ?thesis
    using assms(1) samplesFrom_sorted [OF assms(1), of fs 0]
    by (simp add: processVideo_def merger_def)
qed

section \<open>Properties of the analyzer\<close>

text \<open>
  C7. When the classifier fails on a sampled frame, and on no sampled frame before it, the
  result of \<^verbatim>\<open>processVideo\<close> is the single synthetic segment that starts at that
  frame's timestamp and whose rating is the error text after the prefix Error; the
  segments merged so far are not returned, and the frames after it have no influence on
  the result.
\<close>

theorem classifier_error_stops:
  assumes "fps = (if fpsProp video \<le> 0 then 30 else fpsProp video)"
    and "frames video = pre @ ClassifierError err # post"
    and "\<lfloor>fps\<rfloor> \<noteq> 0"
    and "int (length pre) mod \<lfloor>fps\<rfloor> = 0"
    and "classifierOk fps pre 0"
  shows "processVideo (Some video) =
           Inr [\<lparr>Start = real (length pre) / fps, End = 0, Rating = ''Error: '' @ err,
                 Notes = []\<rparr>]"
proof -
  have "frameLoop fps (pre @ ClassifierError err # post) 0 initState =
        frameLoop fps (ClassifierError err # post) (0 + length pre)
          (foldl mergeStep initState (samplesFrom fps pre 0))"
    by (rule frameLoop_append [OF assms(3,5)])
  also have "\<dots> = Return [\<lparr>Start = real (length pre) / fps, End = 0,
                             Rating = ''Error: '' @ err, Notes = []\<rparr>]"
    using assms(3,4) by simp
  finally show ?thesis
    using assms(1,2) by (simp add: processVideo_def)
qed

theorem classifier_error_stops_witness:
  "frames \<lparr>fpsProp = 2, frames = [Classified ''6+'' ''kids'', ClassifierError ''skipped'',
        ClassifierError ''timeout'', Classified ''18+'' ''gore'']\<rparr> =
     [Classified ''6+'' ''kids'', ClassifierError ''skipped''] @
       ClassifierError ''timeout'' # [Classified ''18+'' ''gore''] \<and>
   \<lfloor>2 :: real\<rfloor> \<noteq> 0 \<and>
   int (length [Classified ''6+'' ''kids'', ClassifierError ''skipped'']) mod \<lfloor>2 :: real\<rfloor> = 0 \<and>
   classifierOk 2 [Classified ''6+'' ''kids'', ClassifierError ''skipped''] 0 \<and>
   processVideo (Some \<lparr>fpsProp = 2, frames = [Classified ''6+'' ''kids'',
        ClassifierError ''skipped'', ClassifierError ''timeout'', Classified ''18+'' ''gore'']\<rparr>) =
     Inr [\<lparr>Start = 1, End = 0, Rating = ''Error: timeout'', Notes = []\<rparr>]"
  using classifier_error_stops [of 2
      "\<lparr>fpsProp = 2, frames = [Classified ''6+'' ''kids'', ClassifierError ''skipped'',
        ClassifierError ''timeout'', Classified ''18+'' ''gore'']\<rparr>"
      "[Classified ''6+'' ''kids'', ClassifierError ''skipped'']" "''timeout''"
      "[Classified ''18+'' ''gore'']"]
  by simp

section \<open>Lemmas about the frame decisions\<close>







section \<open>Properties of the frame decisions\<close>

text \<open>
  C2. The claim asks for the tolerance of 0.001 seconds in both edit modes. The trim scan
  has it; the blur scan compares with the exact bounds. For the segment from 0 to 0.9995
  rated 18+ and frame 30 of a video at 30 frames per second, whose time 1 is the end plus
  0.0005, the blur scan does not find the frame inside the segment and keeps it, while the
  trim scan finds it inside and drops it; at the end plus 0.002 the trim scan does not
  find it inside.
\<close>

theorem blur_exact_bounds:
  "\<not> inSegmentBlur (real 30 / 30) \<lparr>Start = 0, End = 0.9995, Rating = ''18+'', Notes = []\<rparr> \<and>
   blurFrame (real 30 / 30) 12 [\<lparr>Start = 0, End = 0.9995, Rating = ''18+'', Notes = []\<rparr>] = Keep \<and>
   inSegmentTrim (real 30 / 30) \<lparr>Start = 0, End = 0.9995, Rating = ''18+'', Notes = []\<rparr> \<and>
   trimFrame (real 30 / 30) 12
     (sort_key Start [\<lparr>Start = 0, End = 0.9995, Rating = ''18+'', Notes = []\<rparr>]) = Drop \<and>
   real 30 / 30 = End \<lparr>Start = 0, End = 0.9995, Rating = ''18+'', Notes = []\<rparr> + 0.0005 \<and>
   \<not> inSegmentTrim (End \<lparr>Start = 0, End = 0.9995, Rating = ''18+'', Notes = []\<rparr> + 0.002)
        \<lparr>Start = 0, End = 0.9995, Rating = ''18+'', Notes = []\<rparr>"
  by (simp add: inSegmentBlur_def inSegmentTrim_def epsilon_def blurFrame_def trimFrame_def
      getRatingValue_def)






section \<open>Properties of the convert request\<close>

text \<open>
  C9. When the age of the form is not one of 6, 12 and 16, or its video type is not one of
  blur and trim, \<^verbatim>\<open>convertVideo\<close> answers with a bad request: the file is not saved and
  no frame is rendered, and the answer does not depend on the uploaded video.
\<close>

theorem invalid_policy_rejected:
  assumes "age form \<notin> {''6'', ''12'', ''16''} \<or> video_type form \<notin> {''blur'', ''trim''}"
  shows "(\<exists>msg. convertVideo form = BadRequest msg) \<and>
         convertVideo (form\<lparr>video_path := Some u\<rparr>) = convertVideo (form\<lparr>video_path := Some u'\<rparr>)"
  using assms
  by (auto simp: convertVideo_def Let_def split: option.splits RatingsField.splits)

theorem invalid_policy_rejected_witness:
  "age \<lparr>age = ''18'', video_type = ''blur'', ratingsField = Blank, video_path = Some demoUpload\<rparr>
     \<notin> {''6'', ''12'', ''16''} \<and>
   convertVideo \<lparr>age = ''18'', video_type = ''blur'', ratingsField = Blank,
                  video_path = Some demoUpload\<rparr> = BadRequest ''Age must be one of: 6, 12, 16'' \<and>
   convertVideo \<lparr>age = ''12'', video_type = ''cut'', ratingsField = Blank,
                  video_path = Some demoUpload\<rparr> =
     BadRequest ''Video type must be one of: blur, trim''"
  using invalid_policy_rejected
    [of "\<lparr>age = ''18'', video_type = ''blur'', ratingsField = Blank, video_path = Some demoUpload\<rparr>"
        demoUpload demoUpload]
  by (simp add: convertVideo_def)

text \<open>With a valid policy the same upload is rendered.\<close>

lemma Atoi_12: "Atoi ''12'' = Some 12"
  by (simp add: Atoi_def digitVal_def)

lemma convertVideo_valid_example:
  "convertVideo \<lparr>age = ''12'', video_type = ''blur'',
                  ratingsField = Parsed [\<lparr>Start = 1, End = 2, Rating = ''16+'', Notes = []\<rparr>],
                  video_path = Some demoUpload\<rparr> = OK [Keep, Transform, Transform] \<and>
   convertVideo \<lparr>age = ''12'', video_type = ''trim'',
                  ratingsField = Parsed [\<lparr>Start = 1, End = 2, Rating = ''16+'', Notes = []\<rparr>],
                  video_path = Some demoUpload\<rparr> = OK [Drop, Drop, Drop]"
  by (simp add: convertVideo_def Atoi_12 processVideoByAge_def demoUpload_def
      blurInappropriateContent_def trimInappropriateContent_def numeral_3_eq_3
      blurFrame_def trimFrame_def inSegmentBlur_def inSegmentTrim_def epsilon_def
      getRatingValue_def)

end
